theory Spec2Isabelle
  imports Main "HOL-Library.Word"
begin

section \<open>Data model (orders/models.py)\<close>

text \<open>
  \<^verbatim>\<open>class OrderStatus(models.TextChoices)\<close>: seven members, each carrying its string
  value. \<open>OrderStatus_value\<close> is the member's \<^verbatim>\<open>.value\<close>; \<open>OrderStatus_choices\<close> is
  \<^verbatim>\<open>OrderStatus.choices\<close>, the (value, label) pairs in declaration order, the label
  being the member name title-cased.
\<close>

datatype OrderStatus = PENDING | PAID | PROCESSING | SHIPPED | DELIVERED | CANCELLED | FAILED

fun OrderStatus_value :: "OrderStatus \<Rightarrow> string" where
  "OrderStatus_value PENDING = ''pending''"
| "OrderStatus_value PAID = ''paid''"
| "OrderStatus_value PROCESSING = ''processing''"
| "OrderStatus_value SHIPPED = ''shipped''"
| "OrderStatus_value DELIVERED = ''delivered''"
| "OrderStatus_value CANCELLED = ''cancelled''"
| "OrderStatus_value FAILED = ''failed''"

definition OrderStatus_choices :: "(string \<times> string) list" where
  "OrderStatus_choices =
     [(''pending'', ''Pending''), (''paid'', ''Paid''), (''processing'', ''Processing''),
      (''shipped'', ''Shipped''), (''delivered'', ''Delivered''),
      (''cancelled'', ''Cancelled''), (''failed'', ''Failed'')]"

definition OrderStatus_values :: "string list" where
  "OrderStatus_values = map fst OrderStatus_choices"

text \<open>
  Field types. A UUID is 128 bits. A \<^verbatim>\<open>DecimalField\<close> holds a Python \<^verbatim>\<open>Decimal\<close>, here
  its finite values as \<^verbatim>\<open>as_tuple()\<close> gives them: sign, decimal digits (most significant
  first), exponent. A \<^verbatim>\<open>DateTimeField\<close> holds an instant at microsecond resolution, here
  the number of microseconds since the epoch. A \<^verbatim>\<open>JSONField\<close> holds a JSON value
  (numbers restricted to integers).
\<close>

type_synonym uuid = "128 word"

type_synonym datetime = int

record Decimal =
  sign :: bool
  digits :: "nat list"
  exponent :: int

datatype json = JNull | JBool bool | JNum int | JStr string
  | JList "json list" | JObj "(string \<times> json) list"

text \<open>
  \<^verbatim>\<open>class Order(models.Model)\<close>: one row of table \<^verbatim>\<open>orders\<close>. The fields \<^verbatim>\<open>id\<close> and
  \<^verbatim>\<open>total\<close> are primed, the plain names being constants of HOL. \<open>status\<close> is a
  \<^verbatim>\<open>CharField\<close>, so a string.
\<close>

record Order =
  id' :: uuid
  email :: string
  status :: string
  total' :: Decimal
  items :: json
  user_id :: string
  payment_id :: string
  created_at :: datetime
  updated_at :: datetime

text \<open>The table: its rows in insertion order.\<close>

type_synonym table = "Order list"

datatype error = ValidationError | NotFoundError

section \<open>Lookups (orders/querysets.py, orders/managers.py)\<close>

text \<open>
  A queryset is the sequence of rows it selects. \<^verbatim>\<open>QuerySet.filter(field=value)\<close> is the
  \<^verbatim>\<open>exact\<close> lookup: it keeps the rows whose field equals the value, in the order of the
  queryset. A Python call either returns a value (\<open>Inr\<close>) or raises (\<open>Inl\<close>); none of
  the lookups below has a raise of its own.
\<close>

type_synonym QuerySet = "Order list"

definition filter_exact :: "(Order \<Rightarrow> 'a) \<Rightarrow> 'a \<Rightarrow> QuerySet \<Rightarrow> QuerySet" where
  "filter_exact field v self = filter (\<lambda>row. field row = v) self"

definition OrderQuerySet_get_by_user_id :: "QuerySet \<Rightarrow> string \<Rightarrow> error + QuerySet" where
  "OrderQuerySet_get_by_user_id self v = Inr (filter_exact user_id v self)"

definition OrderQuerySet_get_by_payment_id :: "QuerySet \<Rightarrow> string \<Rightarrow> error + QuerySet" where
  "OrderQuerySet_get_by_payment_id self v = Inr (filter_exact payment_id v self)"

definition OrderQuerySet_get_by_status :: "QuerySet \<Rightarrow> string \<Rightarrow> error + QuerySet" where
  "OrderQuerySet_get_by_status self v = Inr (filter_exact status v self)"

definition OrderQuerySet_get_by_created_at :: "QuerySet \<Rightarrow> datetime \<Rightarrow> error + QuerySet" where
  "OrderQuerySet_get_by_created_at self v = Inr (filter_exact created_at v self)"

text \<open>
  \<^verbatim>\<open>OrderManager.get_queryset\<close> builds the queryset over the whole table;
  each manager method calls the queryset method of the same name on it.
\<close>

definition get_queryset :: "table \<Rightarrow> QuerySet" where
  "get_queryset db = db"

definition OrderManager_get_by_user_id :: "table \<Rightarrow> string \<Rightarrow> error + QuerySet" where
  "OrderManager_get_by_user_id db v = OrderQuerySet_get_by_user_id (get_queryset db) v"

definition OrderManager_get_by_payment_id :: "table \<Rightarrow> string \<Rightarrow> error + QuerySet" where
  "OrderManager_get_by_payment_id db v = OrderQuerySet_get_by_payment_id (get_queryset db) v"

definition OrderManager_get_by_status :: "table \<Rightarrow> string \<Rightarrow> error + QuerySet" where
  "OrderManager_get_by_status db v = OrderQuerySet_get_by_status (get_queryset db) v"

definition OrderManager_get_by_created_at :: "table \<Rightarrow> datetime \<Rightarrow> error + QuerySet" where
  "OrderManager_get_by_created_at db v = OrderQuerySet_get_by_created_at (get_queryset db) v"

section \<open>Field validation (the field declarations of \<^verbatim>\<open>Order\<close>)\<close>

text \<open>
  What \<^verbatim>\<open>Model.full_clean\<close> checks follows from the options each field is declared
  with. A field declared without \<^verbatim>\<open>blank=True\<close> rejects the values of
  \<^verbatim>\<open>empty_values\<close> (\<^verbatim>\<open>None\<close>, the empty string, list, tuple and dict); a field with
  \<^verbatim>\<open>max_length\<close> runs a \<^verbatim>\<open>MaxLengthValidator\<close>; a field with \<^verbatim>\<open>choices\<close> accepts the
  listed values only; a field with \<^verbatim>\<open>editable=False\<close> (here \<^verbatim>\<open>id\<close>, and the two
  timestamps through \<^verbatim>\<open>auto_now_add\<close> and \<^verbatim>\<open>auto_now\<close>) is not checked. Each function
  below returns whether the value passes.
\<close>

definition json_empty :: "json \<Rightarrow> bool" where
  "json_empty v = (v = JNull \<or> v = JStr [] \<or> v = JList [] \<or> v = JObj [])"

text \<open>
  \<^verbatim>\<open>DecimalValidator(max_digits, decimal_places)\<close>, the only validator of
  \<^verbatim>\<open>DecimalField(max_digits=10, decimal_places=2)\<close>. It counts the digits and the
  decimal places of the value from its digit tuple and exponent (\<open>count_digits\<close>), then
  compares the two counts and their difference with the bounds. It never reads the sign.
\<close>

definition count_digits :: "Decimal \<Rightarrow> nat \<times> nat" where
  "count_digits v =
     (if 0 \<le> exponent v
      then ((if digits v \<noteq> [0] then length (digits v) + nat (exponent v)
             else length (digits v)), 0)
      else if length (digits v) < nat (- exponent v)
      then (nat (- exponent v), nat (- exponent v))
      else (length (digits v), nat (- exponent v)))"

definition DecimalValidator :: "nat \<Rightarrow> nat \<Rightarrow> Decimal \<Rightarrow> bool" where
  "DecimalValidator max_digits decimal_places v =
     (case count_digits v of (n, decimals) \<Rightarrow>
        \<not> max_digits < n \<and> \<not> decimal_places < decimals
        \<and> \<not> max_digits - decimal_places < n - decimals)"

text \<open>A \<^verbatim>\<open>Decimal\<close> is below zero when its sign is set and some digit is not zero.\<close>

definition negative :: "Decimal \<Rightarrow> bool" where
  "negative v = (sign v \<and> list_ex (\<lambda>d. d \<noteq> 0) (digits v))"

text \<open>
  \<^verbatim>\<open>email = models.EmailField()\<close>: not blank, at most 254 characters (the default
  \<^verbatim>\<open>max_length\<close> of an \<^verbatim>\<open>EmailField\<close>), and accepted by \<^verbatim>\<open>validate_email\<close>, which is
  the parameter \<open>validate_email\<close> here.
\<close>

definition clean_email :: "(string \<Rightarrow> bool) \<Rightarrow> string \<Rightarrow> bool" where
  "clean_email validate_email v = (v \<noteq> [] \<and> length v \<le> 254 \<and> validate_email v)"

text \<open>
  \<^verbatim>\<open>status = models.CharField(max_length=255, choices=OrderStatus.choices,
  default=OrderStatus.PENDING)\<close>.
\<close>

definition status_default :: string where
  "status_default = OrderStatus_value PENDING"

definition clean_status :: "string \<Rightarrow> bool" where
  "clean_status v = (v \<noteq> [] \<and> v \<in> set (map fst OrderStatus_choices) \<and> length v \<le> 255)"

text \<open>\<^verbatim>\<open>total = models.DecimalField(max_digits=10, decimal_places=2)\<close>.\<close>

definition clean_total :: "Decimal \<Rightarrow> bool" where
  "clean_total v = DecimalValidator 10 2 v"

text \<open>\<^verbatim>\<open>items = models.JSONField(default=list)\<close>.\<close>

definition items_default :: json where
  "items_default = JList []"

definition clean_items :: "json \<Rightarrow> bool" where
  "clean_items v = (\<not> json_empty v)"

text \<open>\<^verbatim>\<open>user_id\<close> and \<^verbatim>\<open>payment_id\<close>: \<^verbatim>\<open>models.CharField(max_length=255)\<close>.\<close>

definition clean_char255 :: "string \<Rightarrow> bool" where
  "clean_char255 v = (v \<noteq> [] \<and> length v \<le> 255)"

definition clean_fields :: "(string \<Rightarrow> bool) \<Rightarrow> Order \<Rightarrow> bool" where
  "clean_fields validate_email obj =
     (clean_email validate_email (email obj) \<and> clean_status (status obj)
      \<and> clean_total (total' obj) \<and> clean_items (items obj)
      \<and> clean_char255 (user_id obj) \<and> clean_char255 (payment_id obj))"

text \<open>
  \<^verbatim>\<open>id = models.UUIDField(primary_key=True, default=uuid.uuid4, editable=False)\<close>:
  the primary key is unique, so a row being added whose key is already in the table
  is refused.
\<close>

definition validate_unique :: "table \<Rightarrow> Order \<Rightarrow> bool" where
  "validate_unique db obj = (id' obj \<notin> set (map id' db))"

section \<open>The store operations\<close>

text \<open>
  The repository declares the model and its lookups; it has no function that writes an
  order or reads one by key, and leaves both to the framework. The three operations of
  the spec's OrderStore (section 4.1) are modelled here. Each takes the table and
  returns its result together with the table after it. What a write validates and what
  it stamps is what the field declarations of \<^verbatim>\<open>Order\<close> say (the section above), not
  the spec.
\<close>

text \<open>
  Modelled from the spec: \<^verbatim>\<open>create(email, total, items, user_id, payment_id)\<close>, absent
  from the repository. The new record takes \<^verbatim>\<open>status\<close> from the field's default and
  three values from the environment, which are arguments here: \<open>u\<close>, the value
  \<^verbatim>\<open>uuid.uuid4\<close> returns for \<^verbatim>\<open>id\<close>, and two clock readings, \<open>t1\<close> for \<^verbatim>\<open>created_at\<close>
  (\<^verbatim>\<open>auto_now_add\<close>) and \<open>t2\<close> for \<^verbatim>\<open>updated_at\<close> (\<^verbatim>\<open>auto_now\<close>). The readings are two
  because each of the two fields calls \<^verbatim>\<open>timezone.now()\<close> for itself when the row is
  saved (\<^verbatim>\<open>DateTimeField.pre_save\<close>), in the order of declaration. The record is
  validated, and on success appended to the table; a failure is a
  \<^verbatim>\<open>ValidationError\<close> and leaves the table.
\<close>

definition create ::
  "(string \<Rightarrow> bool) \<Rightarrow> string \<Rightarrow> Decimal \<Rightarrow> json \<Rightarrow> string \<Rightarrow> string
     \<Rightarrow> uuid \<Rightarrow> datetime \<Rightarrow> datetime \<Rightarrow> table \<Rightarrow> (error + Order) \<times> table" where
  "create validate_email e tot its uid pid u t1 t2 db =
     (let obj = \<lparr>id' = u, email = e, status = status_default, total' = tot, items = its,
                 user_id = uid, payment_id = pid, created_at = t1, updated_at = t2\<rparr>
      in if clean_fields validate_email obj \<and> validate_unique db obj
         then (Inr obj, db @ [obj])
         else (Inl ValidationError, db))"

text \<open>
  Modelled from the spec: \<^verbatim>\<open>get(id)\<close>, absent from the repository: the stored order
  with the key, \<^verbatim>\<open>NotFoundError\<close> when there is none.
\<close>

definition get :: "table \<Rightarrow> uuid \<Rightarrow> error + Order" where
  "get db i = (case find (\<lambda>row. id' row = i) db of
                 None \<Rightarrow> Inl NotFoundError
               | Some row \<Rightarrow> Inr row)"

text \<open>
  A partial update names a new value for any of the editable fields (\<^verbatim>\<open>id\<close> and the
  two timestamps are not editable). \<open>apply_changes\<close> sets the named fields of a record;
  \<open>write_row\<close> writes a record to the table under its key.
\<close>

record changes =
  new_email :: "string option"
  new_status :: "string option"
  new_total :: "Decimal option"
  new_items :: "json option"
  new_user_id :: "string option"
  new_payment_id :: "string option"

definition or_keep :: "'a option \<Rightarrow> 'a \<Rightarrow> 'a" where
  "or_keep new old = (case new of None \<Rightarrow> old | Some v \<Rightarrow> v)"

definition apply_changes :: "changes \<Rightarrow> Order \<Rightarrow> Order" where
  "apply_changes c obj =
     obj\<lparr>email := or_keep (new_email c) (email obj),
         status := or_keep (new_status c) (status obj),
         total' := or_keep (new_total c) (total' obj),
         items := or_keep (new_items c) (items obj),
         user_id := or_keep (new_user_id c) (user_id obj),
         payment_id := or_keep (new_payment_id c) (payment_id obj)\<rparr>"

definition write_row :: "Order \<Rightarrow> table \<Rightarrow> table" where
  "write_row obj db = map (\<lambda>row. if id' row = id' obj then obj else row) db"

text \<open>
  Modelled from the spec: \<^verbatim>\<open>update(id, fields)\<close>, absent from the repository. It looks
  the row up (\<^verbatim>\<open>NotFoundError\<close> when the key is unknown), sets the named fields,
  validates the record (\<^verbatim>\<open>ValidationError\<close>), stamps \<^verbatim>\<open>updated_at\<close> with the clock
  reading \<open>t\<close> (\<^verbatim>\<open>auto_now\<close>; \<^verbatim>\<open>auto_now_add\<close> stamps \<^verbatim>\<open>created_at\<close> on insertion
  only) and writes the row back. A failure leaves the table.
\<close>

definition update ::
  "(string \<Rightarrow> bool) \<Rightarrow> uuid \<Rightarrow> changes \<Rightarrow> datetime \<Rightarrow> table \<Rightarrow> (error + Order) \<times> table" where
  "update validate_email i c t db =
     (case get db i of
        Inl e \<Rightarrow> (Inl e, db)
      | Inr row \<Rightarrow>
          (let obj = apply_changes c row
           in if clean_fields validate_email obj
              then (let obj' = obj\<lparr>updated_at := t\<rparr> in (Inr obj', write_row obj' db))
              else (Inl ValidationError, db)))"

text \<open>
  The reachable tables: those a sequence of \<open>create\<close> and \<open>update\<close> calls leaves,
  starting from the empty table. A call that fails leaves the table as it returns it.
  \<open>readings\<close> lists the clock readings of a sequence of calls in the order they are
  taken; the clock does not run backwards when the list is sorted.
\<close>

datatype command =
    Create string Decimal json string string uuid datetime datetime
  | Update uuid changes datetime

fun exec :: "(string \<Rightarrow> bool) \<Rightarrow> command \<Rightarrow> table \<Rightarrow> table" where
  "exec ev (Create e tot its uid pid u t1 t2) db = snd (create ev e tot its uid pid u t1 t2 db)"
| "exec ev (Update i c t) db = snd (update ev i c t db)"

fun run :: "(string \<Rightarrow> bool) \<Rightarrow> command list \<Rightarrow> table \<Rightarrow> table" where
  "run ev [] db = db"
| "run ev (c # cs) db = run ev cs (exec ev c db)"

fun readings :: "command list \<Rightarrow> datetime list" where
  "readings [] = []"
| "readings (Create e tot its uid pid u t1 t2 # cs) = t1 # t2 # readings cs"
| "readings (Update i c t # cs) = t # readings cs"

section \<open>Example values\<close>

text \<open>
  The orders A and B of the spec's scenarios (totals 10.00 and 20.00), the calls that
  create them, and the other concrete inputs the theorems below are evaluated at.
  \<open>has_at\<close> stands for \<^verbatim>\<open>validate_email\<close> there.
\<close>

definition has_at :: "string \<Rightarrow> bool" where
  "has_at v = (CHR ''@'' \<in> set v)"

definition amount_10_00 :: Decimal where
  "amount_10_00 = \<lparr>sign = False, digits = [1, 0, 0, 0], exponent = - 2\<rparr>"

definition amount_20_00 :: Decimal where
  "amount_20_00 = \<lparr>sign = False, digits = [2, 0, 0, 0], exponent = - 2\<rparr>"

definition amount_minus_5_00 :: Decimal where
  "amount_minus_5_00 = \<lparr>sign = True, digits = [5, 0, 0], exponent = - 2\<rparr>"

definition one_item :: json where
  "one_item = JList [JObj [(''sku'', JStr ''a1''), (''qty'', JNum 1)]]"

definition no_changes :: changes where
  "no_changes = \<lparr>new_email = None, new_status = None, new_total = None,
                  new_items = None, new_user_id = None, new_payment_id = None\<rparr>"

definition orderA :: Order where
  "orderA = \<lparr>id' = 1, email = ''a@example.com'', status = ''pending'',
              total' = amount_10_00, items = one_item, user_id = ''u1'',
              payment_id = ''p1'', created_at = 100, updated_at = 101\<rparr>"

definition orderB :: Order where
  "orderB = \<lparr>id' = 2, email = ''b@example.com'', status = ''pending'',
              total' = amount_20_00, items = one_item, user_id = ''u1'',
              payment_id = ''p2'', created_at = 200, updated_at = 202\<rparr>"

definition create_A :: command where
  "create_A = Create ''a@example.com'' amount_10_00 one_item ''u1'' ''p1'' 1 100 101"

definition create_B :: command where
  "create_B = Create ''b@example.com'' amount_20_00 one_item ''u1'' ''p2'' 2 200 202"

definition bogus_order :: Order where
  "bogus_order = orderA\<lparr>status := ''bogus''\<rparr>"

definition pay :: changes where
  "pay = no_changes\<lparr>new_status := Some ''paid''\<rparr>"

definition make_bogus :: changes where
  "make_bogus = no_changes\<lparr>new_status := Some ''bogus''\<rparr>"

definition orderA_paid :: Order where
  "orderA_paid = orderA\<lparr>status := ''paid'', updated_at := 300\<rparr>"

definition amount_1_999 :: Decimal where
  "amount_1_999 = \<lparr>sign = False, digits = [1, 9, 9, 9], exponent = - 3\<rparr>"

section \<open>Auxiliary facts\<close>

lemmas lookup_defs =
  OrderManager_get_by_user_id_def OrderManager_get_by_payment_id_def
  OrderManager_get_by_status_def OrderManager_get_by_created_at_def
  OrderQuerySet_get_by_user_id_def OrderQuerySet_get_by_payment_id_def
  OrderQuerySet_get_by_status_def OrderQuerySet_get_by_created_at_def
  get_queryset_def filter_exact_def

lemmas example_defs =
  has_at_def amount_10_00_def amount_20_00_def amount_minus_5_00_def one_item_def
  no_changes_def orderA_def orderB_def create_A_def create_B_def bogus_order_def
  pay_def make_bogus_def orderA_paid_def amount_1_999_def

lemmas clean_defs =
  clean_fields_def clean_email_def clean_status_def clean_total_def clean_items_def
  clean_char255_def json_empty_def DecimalValidator_def count_digits_def
  OrderStatus_choices_def status_default_def validate_unique_def

lemmas eval_defs =
  example_defs create_def update_def get_def apply_changes_def or_keep_def write_row_def
  clean_defs Let_def

subsection \<open>What a call returns\<close>

lemma find_id:
  "find (\<lambda>row. id' row = i) db = Some row \<Longrightarrow> id' row = i \<and> row \<in> set db"
  by (induction db) (auto split: if_splits)

lemma get_Inr: "get db i = Inr row \<Longrightarrow> id' row = i \<and> row \<in> set db"
  by (auto simp: get_def dest: find_id split: option.splits)

lemma get_Inl: "get db i = Inl e \<Longrightarrow> e = NotFoundError \<and> i \<notin> set (map id' db)"
  by (auto simp: get_def find_None_iff split: option.splits)

lemma create_Inr:
  "create ev e tot its uid pid u t1 t2 db = (Inr obj, db') \<Longrightarrow>
     obj = \<lparr>id' = u, email = e, status = status_default, total' = tot, items = its,
            user_id = uid, payment_id = pid, created_at = t1, updated_at = t2\<rparr>
     \<and> clean_fields ev obj \<and> u \<notin> set (map id' db) \<and> db' = db @ [obj]"
  by (auto simp: create_def Let_def validate_unique_def split: if_splits)

lemma create_Inl:
  "create ev e tot its uid pid u t1 t2 db = (Inl err, db') \<Longrightarrow> err = ValidationError \<and> db' = db"
  by (auto simp: create_def Let_def split: if_splits)

lemma update_Inr:
  "update ev i c t db = (Inr obj, db') \<Longrightarrow>
     \<exists>row. get db i = Inr row \<and> clean_fields ev (apply_changes c row)
       \<and> obj = (apply_changes c row)\<lparr>updated_at := t\<rparr> \<and> db' = write_row obj db"
  by (auto simp: update_def Let_def split: sum.splits if_splits)

lemma update_Inl:
  "update ev i c t db = (Inl err, db') \<Longrightarrow> db' = db"
  by (auto simp: update_def Let_def split: sum.splits if_splits)

lemma apply_changes_keeps [simp]:
  "id' (apply_changes c row) = id' row"
  "created_at (apply_changes c row) = created_at row"
  "updated_at (apply_changes c row) = updated_at row"
  by (simp_all add: apply_changes_def)

lemma clean_fields_updated_at [simp]:
  "clean_fields ev (obj\<lparr>updated_at := t\<rparr>) = clean_fields ev obj"
  by (simp add: clean_fields_def)

lemma set_write_row: "set (write_row obj db) \<subseteq> insert obj (set db)"
  by (auto simp: write_row_def)

lemma ids_write_row: "map id' (write_row obj db) = map id' db"
  by (simp add: write_row_def)

subsection \<open>Every stored row passes validation\<close>

lemma exec_clean:
  assumes "\<forall>row\<in>set db. clean_fields ev row"
  shows "\<forall>row\<in>set (exec ev c db). clean_fields ev row"
proof (cases c)
  case (Create e tot its uid pid u t1 t2)
  obtain r db' where r: "create ev e tot its uid pid u t1 t2 db = (r, db')"
    by (cases "create ev e tot its uid pid u t1 t2 db")
  show ?thesis
  proof (cases r)
    case (Inl err)
    with r Create assms show ?thesis by (auto dest: create_Inl)
  next
    case (Inr obj)
    with r Create assms show ?thesis by (auto dest!: create_Inr)
  qed
next
  case (Update i ch t)
  obtain r db' where r: "update ev i ch t db = (r, db')"
    by (cases "update ev i ch t db")
  show ?thesis
  proof (cases r)
    case (Inl err)
    with r Update assms show ?thesis by (auto dest: update_Inl)
  next
    case (Inr obj)
    with r have "clean_fields ev obj" "db' = write_row obj db"
      by (auto dest!: update_Inr)
    with r Update assms set_write_row [of obj db] show ?thesis by auto
  qed
qed

lemma run_clean:
  "\<forall>row\<in>set db. clean_fields ev row \<Longrightarrow> \<forall>row\<in>set (run ev cs db). clean_fields ev row"
proof (induction cs arbitrary: db)
  case Nil
  then show ?case by simp
next
  case (Cons c cs)
  from Cons.prems have "\<forall>row\<in>set (exec ev c db). clean_fields ev row"
    by (rule exec_clean)
  then show ?case using Cons.IH by simp
qed

subsection \<open>Keys\<close>

lemma exec_ids:
  "distinct (map id' db) \<Longrightarrow> distinct (map id' (exec ev c db))"
proof (cases c)
  case (Create e tot its uid pid u t1 t2)
  assume d: "distinct (map id' db)"
  obtain r db' where r: "create ev e tot its uid pid u t1 t2 db = (r, db')"
    by (cases "create ev e tot its uid pid u t1 t2 db")
  show ?thesis
  proof (cases r)
    case (Inl err)
    with r Create d show ?thesis by (auto dest: create_Inl)
  next
    case (Inr obj)
    with r Create d show ?thesis by (auto dest!: create_Inr)
  qed
next
  case (Update i ch t)
  assume d: "distinct (map id' db)"
  obtain r db' where r: "update ev i ch t db = (r, db')"
    by (cases "update ev i ch t db")
  show ?thesis
  proof (cases r)
    case (Inl err)
    with r Update d show ?thesis by (auto dest: update_Inl)
  next
    case (Inr obj)
    with r have "db' = write_row obj db" by (auto dest!: update_Inr)
    with r Update d show ?thesis by (simp add: ids_write_row)
  qed
qed

lemma run_ids: "distinct (map id' db) \<Longrightarrow> distinct (map id' (run ev cs db))"
  by (induction cs arbitrary: db) (simp_all add: exec_ids)

lemma update_ids: "map id' (snd (update ev i c t db)) = map id' db"
proof -
  obtain r db' where r: "update ev i c t db = (r, db')"
    by (cases "update ev i c t db")
  show ?thesis
  proof (cases r)
    case (Inl err)
    with r show ?thesis by (auto dest: update_Inl)
  next
    case (Inr obj)
    with r have "db' = write_row obj db" by (auto dest!: update_Inr)
    with r show ?thesis by (simp add: ids_write_row)
  qed
qed

subsection \<open>Timestamps\<close>

lemma find_write_row:
  "find (\<lambda>row. id' row = i) (write_row obj db) =
     map_option (\<lambda>row. if id' row = id' obj then obj else row) (find (\<lambda>row. id' row = i) db)"
  by (induction db) (auto simp: write_row_def)

lemma find_snoc:
  "find P (xs @ [y]) = (case find P xs of None \<Rightarrow> (if P y then Some y else None) | Some x \<Rightarrow> Some x)"
  by (induction xs) auto

lemma get_append:
  "get db i = Inr row \<Longrightarrow> get (db @ [obj]) i = Inr row"
  by (auto simp: get_def find_snoc split: option.splits)

lemma get_write_row:
  "get db i = Inr row \<Longrightarrow>
     get (write_row obj db) i = Inr (if id' row = id' obj then obj else row)"
  by (auto simp: get_def find_write_row split: option.splits)

lemma exec_created_at:
  assumes g: "get db i = Inr row"
  shows "\<exists>row'. get (exec ev c db) i = Inr row' \<and> created_at row' = created_at row"
proof (cases c)
  case (Create e tot its uid pid u t1 t2)
  obtain r db' where r: "create ev e tot its uid pid u t1 t2 db = (r, db')"
    by (cases "create ev e tot its uid pid u t1 t2 db")
  show ?thesis
  proof (cases r)
    case (Inl err)
    with r Create g show ?thesis by (auto dest: create_Inl)
  next
    case (Inr obj)
    with r have "db' = db @ [obj]" by (auto dest!: create_Inr)
    with r Create g show ?thesis by (simp add: get_append)
  qed
next
  case (Update j ch t)
  obtain r db' where r: "update ev j ch t db = (r, db')"
    by (cases "update ev j ch t db")
  show ?thesis
  proof (cases r)
    case (Inl err)
    with r Update g show ?thesis by (auto dest: update_Inl)
  next
    case (Inr obj)
    with r obtain old where old: "get db j = Inr old"
      "obj = (apply_changes ch old)\<lparr>updated_at := t\<rparr>" "db' = write_row obj db"
      by (auto dest!: update_Inr)
    from old(1) have "id' old = j" by (auto dest: get_Inr)
    with old(2) have idobj: "id' obj = j" by simp
    from g have idrow: "id' row = i" by (auto dest: get_Inr)
    show ?thesis
    proof (cases "i = j")
      case True
      with g old(1) have "old = row" by simp
      with old(2) have "created_at obj = created_at row" by simp
      with True g idobj idrow old(3) r Update show ?thesis
        by (simp add: get_write_row)
    next
      case False
      with g idobj idrow old(3) r Update show ?thesis
        by (simp add: get_write_row)
    qed
  qed
qed

lemma exec_time:
  assumes inv: "\<forall>row\<in>set db. created_at row \<le> updated_at row
                  \<and> (\<forall>t\<in>set (readings [c] @ ts). updated_at row \<le> t)"
    and srt: "sorted (readings [c] @ ts)"
  shows "\<forall>row\<in>set (exec ev c db). created_at row \<le> updated_at row
           \<and> (\<forall>t\<in>set ts. updated_at row \<le> t)"
proof (cases c)
  case (Create e tot its uid pid u t1 t2)
  obtain r db' where r: "create ev e tot its uid pid u t1 t2 db = (r, db')"
    by (cases "create ev e tot its uid pid u t1 t2 db")
  show ?thesis
  proof (cases r)
    case (Inl err)
    with r Create inv show ?thesis by (auto dest: create_Inl)
  next
    case (Inr obj)
    with r have obj: "created_at obj = t1" "updated_at obj = t2" "db' = db @ [obj]"
      by (auto dest!: create_Inr)
    from srt Create have "t1 \<le> t2" "\<forall>t\<in>set ts. t2 \<le> t" by auto
    with obj r Create inv show ?thesis by auto
  qed
next
  case (Update j ch t)
  obtain r db' where r: "update ev j ch t db = (r, db')"
    by (cases "update ev j ch t db")
  show ?thesis
  proof (cases r)
    case (Inl err)
    with r Update inv show ?thesis by (auto dest: update_Inl)
  next
    case (Inr obj)
    with r obtain old where old: "get db j = Inr old"
      "obj = (apply_changes ch old)\<lparr>updated_at := t\<rparr>" "db' = write_row obj db"
      by (auto dest!: update_Inr)
    from old(1) have "old \<in> set db" by (auto dest: get_Inr)
    with inv Update have "created_at old \<le> updated_at old" "updated_at old \<le> t" by auto
    with old(2) have c: "created_at obj \<le> updated_at obj" "updated_at obj = t" by auto
    from srt Update have "\<forall>t'\<in>set ts. t \<le> t'" by auto
    with c have "created_at obj \<le> updated_at obj \<and> (\<forall>t\<in>set ts. updated_at obj \<le> t)"
      by simp
    with inv Update r old(3) set_write_row [of obj db] show ?thesis by auto
  qed
qed

lemma readings_Cons: "readings (c # cs) = readings [c] @ readings cs"
  by (cases c) simp_all

lemma readings_append: "readings (cs @ ds) = readings cs @ readings ds"
  by (induction cs rule: readings.induct) simp_all

lemma run_time:
  "sorted (readings cs @ ts) \<Longrightarrow>
   \<forall>row\<in>set db. created_at row \<le> updated_at row
      \<and> (\<forall>t\<in>set (readings cs @ ts). updated_at row \<le> t) \<Longrightarrow>
   \<forall>row\<in>set (run ev cs db). created_at row \<le> updated_at row
      \<and> (\<forall>t\<in>set ts. updated_at row \<le> t)"
proof (induction cs arbitrary: db)
  case Nil
  then show ?case by simp
next
  case (Cons c cs)
  from Cons.prems(1) have s1: "sorted (readings [c] @ (readings cs @ ts))"
    by (simp add: readings_Cons [of c cs])
  from Cons.prems(2) have i1: "\<forall>row\<in>set db. created_at row \<le> updated_at row
      \<and> (\<forall>t\<in>set (readings [c] @ (readings cs @ ts)). updated_at row \<le> t)"
    by (simp add: readings_Cons [of c cs])
  from exec_time [OF i1 s1]
  have i2: "\<forall>row\<in>set (exec ev c db). created_at row \<le> updated_at row
      \<and> (\<forall>t\<in>set (readings cs @ ts). updated_at row \<le> t)" .
  from s1 have s2: "sorted (readings cs @ ts)"
    by (simp add: sorted_append)
  from Cons.IH [OF s2 i2] show ?case by simp
qed

subsection \<open>Validation and the examples\<close>

lemma run_scenario: "run has_at [create_A, create_B] [] = [orderA, orderB]"
  by (simp add: example_defs create_def clean_defs Let_def)

lemma OrderStatus_values_eq:
  "OrderStatus_values =
     [''pending'', ''paid'', ''processing'', ''shipped'', ''delivered'', ''cancelled'', ''failed'']"
  by (simp add: OrderStatus_values_def OrderStatus_choices_def)

lemma clean_status_iff: "clean_status v \<longleftrightarrow> v \<in> set OrderStatus_values"
  by (auto simp: clean_status_def OrderStatus_values_def OrderStatus_choices_def)

lemma clean_total_sign: "clean_total (tot\<lparr>sign := b\<rparr>) = clean_total tot"
  by (simp add: clean_total_def DecimalValidator_def count_digits_def)

lemma clean_total_bounds:
  "clean_total v \<Longrightarrow> (case count_digits v of (n, d) \<Rightarrow> n \<le> 10 \<and> d \<le> 2 \<and> n - d \<le> 8)"
  by (auto simp: clean_total_def DecimalValidator_def split: prod.splits)

lemma create_sign:
  assumes "create ev e tot its uid pid u t1 t2 db = (Inr obj, db')"
  shows "\<exists>obj'. create ev e (tot\<lparr>sign := b\<rparr>) its uid pid u t1 t2 db = (Inr obj', db @ [obj'])
           \<and> total' obj' = tot\<lparr>sign := b\<rparr>"
  using assms
  by (auto simp: create_def Let_def clean_fields_def clean_total_sign validate_unique_def
      split: if_splits)

lemma create_bad_total:
  "\<not> clean_total tot \<Longrightarrow> create ev e tot its uid pid u t1 t2 db = (Inl ValidationError, db)"
  by (simp add: create_def Let_def clean_fields_def)

lemma update_bad_total:
  "\<not> clean_total tot \<Longrightarrow>
     update ev i (c\<lparr>new_total := Some tot\<rparr>) t db = (Inl ValidationError, db)
     \<or> update ev i (c\<lparr>new_total := Some tot\<rparr>) t db = (Inl NotFoundError, db)"
  by (auto simp: update_def Let_def clean_fields_def apply_changes_def or_keep_def
      dest: get_Inl split: sum.splits)

lemma update_bad_status:
  "s \<notin> set OrderStatus_values \<Longrightarrow>
     update ev i (c\<lparr>new_status := Some s\<rparr>) t db = (Inl ValidationError, db)
     \<or> update ev i (c\<lparr>new_status := Some s\<rparr>) t db = (Inl NotFoundError, db)"
  by (auto simp: update_def Let_def clean_fields_def clean_status_iff apply_changes_def
      or_keep_def dest: get_Inl split: sum.splits)

lemma update_stamp:
  "update ev i c t db = (Inr obj, db') \<Longrightarrow>
     updated_at obj = t \<and> get db' i = Inr obj
     \<and> (\<exists>old. get db i = Inr old \<and> created_at obj = created_at old)"
proof -
  assume u: "update ev i c t db = (Inr obj, db')"
  then obtain old where old: "get db i = Inr old"
    "obj = (apply_changes c old)\<lparr>updated_at := t\<rparr>" "db' = write_row obj db"
    by (auto dest!: update_Inr)
  from old(1) have "id' old = i" by (auto dest: get_Inr)
  with old(2) have "id' obj = id' old" by simp
  with old(1,3) have "get db' i = Inr obj" by (simp add: get_write_row)
  with old show ?thesis by simp
qed

lemma run_updated_at_before:
  assumes "sorted (readings (cs @ [Update i c t]))" and "row \<in> set (run ev cs [])"
  shows "updated_at row \<le> t"
proof -
  from assms(1) have "sorted (readings cs @ [t])"
    by (simp add: readings_append)
  from run_time [OF this, of "[]" ev] assms(2) show ?thesis by simp
qed

lemma update_paid_then_bogus:
  assumes u: "update ev i pay t db = (Inr a, db1)"
  shows "update ev i make_bogus t' db1 = (Inl ValidationError, db1)
         \<and> get db1 i = Inr a \<and> status a = ''paid''"
proof -
  from u have g: "get db1 i = Inr a" by (auto dest: update_stamp)
  from u obtain old where "a = (apply_changes pay old)\<lparr>updated_at := t\<rparr>"
    by (auto dest!: update_Inr)
  then have st: "status a = ''paid''"
    by (simp add: apply_changes_def pay_def no_changes_def or_keep_def)
  have "status (apply_changes make_bogus a) = ''bogus''"
    by (simp add: apply_changes_def make_bogus_def no_changes_def or_keep_def)
  then have "\<not> clean_fields ev (apply_changes make_bogus a)"
    by (simp add: clean_fields_def clean_status_iff OrderStatus_values_eq)
  with g have "update ev i make_bogus t' db1 = (Inl ValidationError, db1)"
    by (simp add: update_def Let_def)
  with g st show ?thesis by simp
qed

lemma exec_keeps_ids: "set (map id' db) \<subseteq> set (map id' (exec ev cmd db))"
proof (cases cmd)
  case (Create e tot its uid pid u t1 t2)
  then show ?thesis by (auto simp: create_def Let_def)
next
  case (Update i c t)
  then show ?thesis by (simp add: update_ids)
qed

lemma create_succeeds:
  assumes "clean_fields ev \<lparr>id' = u, email = e, status = status_default, total' = tot,
             items = its, user_id = uid, payment_id = pid, created_at = t1, updated_at = t2\<rparr>"
    and "u \<notin> set (map id' db)"
  shows "\<exists>obj. create ev e tot its uid pid u t1 t2 db = (Inr obj, db @ [obj])"
  using assms by (simp add: create_def Let_def validate_unique_def)

section \<open>The claims\<close>

subsection \<open>Lookup by status\<close>

text \<open>
  C1, as the code has it: for every status value \<open>s\<close>, a member of the enumeration or
  not, \<^verbatim>\<open>get_by_status(s)\<close> returns exactly the stored orders whose status equals \<open>s\<close>,
  in table order, and does not fail with \<^verbatim>\<open>ValidationError\<close>: the argument is passed to
  the filter unchecked.
\<close>

theorem get_by_status_any_value:
  "OrderManager_get_by_status db s = Inr (filter (\<lambda>row. status row = s) db)
   \<and> OrderManager_get_by_status db s \<noteq> Inl ValidationError"
  by (simp add: lookup_defs)

theorem get_by_status_any_value_witness:
  "OrderManager_get_by_status [orderA, bogus_order] ''pending'' = Inr [orderA]
   \<and> OrderManager_get_by_status [orderA, bogus_order] ''bogus'' = Inr [bogus_order]"
  using get_by_status_any_value [where db = "[orderA, bogus_order]" and s = "''pending''"]
    get_by_status_any_value [where db = "[orderA, bogus_order]" and s = "''bogus''"]
  by (simp add: orderA_def bogus_order_def)

text \<open>
  The claim as stated asks for a \<^verbatim>\<open>ValidationError\<close> when the argument is outside the
  enumeration. On the table of orders A and B the value \<^verbatim>\<open>"bogus"\<close>, which is outside
  it, gives the empty sequence instead.
\<close>

theorem get_by_status_unknown_counterexample:
  "''bogus'' \<notin> set OrderStatus_values
   \<and> OrderManager_get_by_status [orderA, orderB] ''bogus'' \<noteq> Inl ValidationError
   \<and> OrderManager_get_by_status [orderA, orderB] ''bogus'' = Inr []"
  by (simp add: lookup_defs OrderStatus_values_eq orderA_def orderB_def)

subsection \<open>Lookup by user and by payment\<close>

text \<open>
  C2: for every string \<open>v\<close>, \<^verbatim>\<open>get_by_user_id(v)\<close> returns exactly the stored orders
  whose \<^verbatim>\<open>user_id\<close> equals \<open>v\<close>, and \<^verbatim>\<open>get_by_payment_id(v)\<close> exactly those whose
  \<^verbatim>\<open>payment_id\<close> equals \<open>v\<close>, under exact string equality. On a table holding A
  (user u1, payment p1) and B (user u1, payment p2), the lookup of user u1 returns A and
  B, the lookup of payment p1 returns A only, and the lookup of user U1 returns nothing.
\<close>

theorem lookup_by_user_id_and_payment_id:
  "OrderManager_get_by_user_id db v = Inr (filter (\<lambda>row. user_id row = v) db)
   \<and> OrderManager_get_by_payment_id db v = Inr (filter (\<lambda>row. payment_id row = v) db)
   \<and> (user_id a = ''u1'' \<and> payment_id a = ''p1'' \<and> user_id b = ''u1'' \<and> payment_id b = ''p2''
        \<longrightarrow> OrderManager_get_by_user_id [a, b] ''u1'' = Inr [a, b]
          \<and> OrderManager_get_by_payment_id [a, b] ''p1'' = Inr [a]
          \<and> OrderManager_get_by_user_id [a, b] ''U1'' = Inr [])"
  by (simp add: lookup_defs)

theorem lookup_by_user_id_and_payment_id_witness:
  "run has_at [create_A, create_B] [] = [orderA, orderB]
   \<and> user_id orderA = ''u1'' \<and> payment_id orderA = ''p1''
   \<and> user_id orderB = ''u1'' \<and> payment_id orderB = ''p2''
   \<and> OrderManager_get_by_user_id [orderA, orderB] ''u1'' = Inr [orderA, orderB]
   \<and> OrderManager_get_by_payment_id [orderA, orderB] ''p1'' = Inr [orderA]
   \<and> OrderManager_get_by_user_id [orderA, orderB] ''U1'' = Inr []"
  using lookup_by_user_id_and_payment_id
    [where db = "[orderA, orderB]" and v = "''u1''" and a = orderA and b = orderB]
    run_scenario
  by (simp add: orderA_def orderB_def)

subsection \<open>Non-negative totals\<close>

text \<open>
  C3, as the code has it: in every reachable table every stored order's total passes the
  digit check of its field: at most 10 digits, at most 2 decimal places, at most 8 digits
  before the decimal point. A total that fails this check makes \<open>create\<close> and
  \<open>update\<close> fail (\<open>update\<close> with \<^verbatim>\<open>ValidationError\<close>, or \<^verbatim>\<open>NotFoundError\<close> when the
  key is unknown) and leaves the table as it was. The sign is not checked: when
  \<open>create\<close> accepts a total it accepts the same total with either sign, and stores it.
\<close>

theorem stored_total_digits_checked_sign_not:
  "(\<forall>row\<in>set (run ev cs []).
      case count_digits (total' row) of (n, d) \<Rightarrow> n \<le> 10 \<and> d \<le> 2 \<and> n - d \<le> 8)
   \<and> (\<not> clean_total bad \<longrightarrow>
        create ev e bad its uid pid u t1 t2 db = (Inl ValidationError, db))
   \<and> (\<not> clean_total bad \<longrightarrow>
        update ev i (c\<lparr>new_total := Some bad\<rparr>) t db = (Inl ValidationError, db)
        \<or> update ev i (c\<lparr>new_total := Some bad\<rparr>) t db = (Inl NotFoundError, db))
   \<and> (create ev e tot its uid pid u t1 t2 db = (Inr obj, db') \<longrightarrow>
        (\<exists>obj'. create ev e (tot\<lparr>sign := b\<rparr>) its uid pid u t1 t2 db = (Inr obj', db @ [obj'])
           \<and> total' obj' = tot\<lparr>sign := b\<rparr>))"
proof -
  have "\<forall>row\<in>set (run ev cs []). clean_fields ev row"
    by (rule run_clean) simp
  then have "\<forall>row\<in>set (run ev cs []). clean_total (total' row)"
    by (simp add: clean_fields_def)
  then have 1: "\<forall>row\<in>set (run ev cs []).
      case count_digits (total' row) of (n, d) \<Rightarrow> n \<le> 10 \<and> d \<le> 2 \<and> n - d \<le> 8"
    using clean_total_bounds by auto
  show ?thesis
    using 1 create_bad_total [of bad ev e its uid pid u t1 t2 db]
      update_bad_total [of bad ev i c t db]
      create_sign [of ev e tot its uid pid u t1 t2 db obj db' b]
    by blast
qed

theorem stored_total_digits_checked_sign_not_witness:
  "run has_at [create_A, create_B] [] = [orderA, orderB]
   \<and> count_digits (total' orderA) = (4, 2) \<and> count_digits (total' orderB) = (4, 2)
   \<and> count_digits amount_1_999 = (4, 3) \<and> \<not> clean_total amount_1_999
   \<and> create has_at ''b@example.com'' amount_1_999 one_item ''u1'' ''p2'' 2 200 202 [orderA]
       = (Inl ValidationError, [orderA])
   \<and> update has_at 1 (no_changes\<lparr>new_total := Some amount_1_999\<rparr>) 300 [orderA]
       = (Inl ValidationError, [orderA])
   \<and> create has_at ''b@example.com'' amount_20_00 one_item ''u1'' ''p2'' 2 200 202 [orderA]
       = (Inr orderB, [orderA, orderB])
   \<and> create has_at ''b@example.com'' (amount_20_00\<lparr>sign := True\<rparr>) one_item ''u1'' ''p2''
        2 200 202 [orderA]
       = (Inr (orderB\<lparr>total' := amount_20_00\<lparr>sign := True\<rparr>\<rparr>),
          [orderA, orderB\<lparr>total' := amount_20_00\<lparr>sign := True\<rparr>\<rparr>])"
  using stored_total_digits_checked_sign_not
    [where ev = has_at and cs = "[create_A, create_B]" and bad = amount_1_999
      and e = "''b@example.com''" and its = one_item and uid = "''u1''" and pid = "''p2''"
      and u = 2 and ?t1.0 = 200 and ?t2.0 = 202 and db = "[orderA]" and i = 1
      and c = no_changes and t = 300 and tot = amount_20_00 and obj = orderB
      and db' = "[orderA, orderB]" and b = True]
    run_scenario
  by (simp add: eval_defs)

text \<open>
  The claim as stated asks that a negative total be refused. Creating an order with total
  -5.00 succeeds, and the table then holds it.
\<close>

theorem negative_total_counterexample:
  "negative amount_minus_5_00
   \<and> fst (create has_at ''a@example.com'' amount_minus_5_00 one_item ''u1'' ''p1'' 1 100 101 [])
       \<noteq> Inl ValidationError
   \<and> map total' (run has_at
        [Create ''a@example.com'' amount_minus_5_00 one_item ''u1'' ''p1'' 1 100 101] [])
       = [amount_minus_5_00]"
  by (simp add: negative_def eval_defs)

subsection \<open>Status values\<close>

text \<open>
  C4, as the code has it: the enumeration is pending, paid, processing, shipped,
  delivered, cancelled, failed; in every table reachable through \<open>create\<close> and
  \<open>update\<close> every stored order's status is one of them; a newly created order has status
  pending; an update to a status outside the enumeration fails and leaves the table as
  it was. The status field itself is a string field, so other values are representable;
  validation on write is what keeps them out.
\<close>

theorem stored_status_in_enumeration:
  "set OrderStatus_values =
     {''pending'', ''paid'', ''processing'', ''shipped'', ''delivered'', ''cancelled'', ''failed''}
   \<and> (\<forall>row\<in>set (run ev cs []). status row \<in> set OrderStatus_values)
   \<and> (create ev e tot its uid pid u t1 t2 db = (Inr obj, db') \<longrightarrow> status obj = ''pending'')
   \<and> (s \<notin> set OrderStatus_values \<longrightarrow>
        update ev i (c\<lparr>new_status := Some s\<rparr>) t db = (Inl ValidationError, db)
        \<or> update ev i (c\<lparr>new_status := Some s\<rparr>) t db = (Inl NotFoundError, db))"
proof -
  have "\<forall>row\<in>set (run ev cs []). clean_fields ev row"
    by (rule run_clean) simp
  then have 1: "\<forall>row\<in>set (run ev cs []). status row \<in> set OrderStatus_values"
    by (simp add: clean_fields_def clean_status_iff)
  have 2: "create ev e tot its uid pid u t1 t2 db = (Inr obj, db') \<longrightarrow> status obj = ''pending''"
    by (auto simp: status_default_def dest!: create_Inr)
  have 3: "set OrderStatus_values =
     {''pending'', ''paid'', ''processing'', ''shipped'', ''delivered'', ''cancelled'', ''failed''}"
    by (simp add: OrderStatus_values_eq)
  show ?thesis
    using 1 2 3 update_bad_status [of s ev i c t db] by blast
qed

theorem stored_status_in_enumeration_witness:
  "run has_at [create_A, create_B] [] = [orderA, orderB]
   \<and> status orderA \<in> set OrderStatus_values \<and> status orderB \<in> set OrderStatus_values
   \<and> create has_at ''b@example.com'' amount_20_00 one_item ''u1'' ''p2'' 2 200 202 [orderA]
       = (Inr orderB, [orderA, orderB])
   \<and> status orderB = ''pending''
   \<and> ''bogus'' \<notin> set OrderStatus_values
   \<and> update has_at 1 (no_changes\<lparr>new_status := Some ''bogus''\<rparr>) 300 [orderA]
       = (Inl ValidationError, [orderA])"
  using stored_status_in_enumeration
    [where ev = has_at and cs = "[create_A, create_B]" and e = "''b@example.com''"
      and tot = amount_20_00 and its = one_item and uid = "''u1''" and pid = "''p2''"
      and u = 2 and ?t1.0 = 200 and ?t2.0 = 202 and db = "[orderA]" and obj = orderB
      and db' = "[orderA, orderB]" and s = "''bogus''" and i = 1 and c = no_changes
      and t = 300]
    run_scenario
  by (simp add: eval_defs OrderStatus_values_eq)

text \<open>
  The claim as stated says that no value outside the enumeration is representable. An
  order record whose status is \<^verbatim>\<open>"bogus"\<close> is a value of the model's type, and a table
  holding it answers the status lookup with it.
\<close>

theorem status_representable_counterexample:
  "status bogus_order = ''bogus''
   \<and> status bogus_order \<notin> set OrderStatus_values
   \<and> length (status bogus_order) \<le> 255
   \<and> OrderManager_get_by_status [bogus_order] ''bogus'' = Inr [bogus_order]"
  by (simp add: bogus_order_def orderA_def OrderStatus_values_eq lookup_defs)

subsection \<open>Timestamps\<close>

text \<open>
  C5, as the code has it: a created order carries the two clock readings taken for it,
  \<^verbatim>\<open>created_at\<close> the first and \<^verbatim>\<open>updated_at\<close> the second; no later \<open>create\<close> or
  \<open>update\<close> changes the \<^verbatim>\<open>created_at\<close> of a stored order; a successful \<open>update\<close> sets
  \<^verbatim>\<open>updated_at\<close> to its clock reading and stores the order so. When the clock does not
  run backwards, \<^verbatim>\<open>created_at\<close> is at most \<^verbatim>\<open>updated_at\<close> for every order of every
  reachable table, and an update's reading is at least every \<^verbatim>\<open>updated_at\<close> stored
  before it.
\<close>

theorem timestamps_of_create_and_update:
  "(create ev e tot its uid pid u t1 t2 db = (Inr obj, db') \<longrightarrow>
      created_at obj = t1 \<and> updated_at obj = t2)
   \<and> (get db i = Inr row \<longrightarrow>
        (\<exists>row'. get (exec ev cmd db) i = Inr row' \<and> created_at row' = created_at row))
   \<and> (update ev i c t db = (Inr upd, db'') \<longrightarrow> updated_at upd = t \<and> get db'' i = Inr upd)
   \<and> (sorted (readings cs) \<longrightarrow>
        (\<forall>r\<in>set (run ev cs []). created_at r \<le> updated_at r))
   \<and> (sorted (readings (cs @ [Update i c t])) \<longrightarrow>
        (\<forall>r\<in>set (run ev cs []). updated_at r \<le> t))"
proof -
  have 1: "create ev e tot its uid pid u t1 t2 db = (Inr obj, db') \<longrightarrow>
      created_at obj = t1 \<and> updated_at obj = t2"
    by (auto dest!: create_Inr)
  have 2: "get db i = Inr row \<longrightarrow>
        (\<exists>row'. get (exec ev cmd db) i = Inr row' \<and> created_at row' = created_at row)"
    using exec_created_at by blast
  have 3: "update ev i c t db = (Inr upd, db'') \<longrightarrow> updated_at upd = t \<and> get db'' i = Inr upd"
    using update_stamp by blast
  have 4: "sorted (readings cs) \<longrightarrow> (\<forall>r\<in>set (run ev cs []). created_at r \<le> updated_at r)"
  proof
    assume "sorted (readings cs)"
    then have "sorted (readings cs @ [])" by simp
    from run_time [OF this, of "[]" ev]
    show "\<forall>r\<in>set (run ev cs []). created_at r \<le> updated_at r" by simp
  qed
  have 5: "sorted (readings (cs @ [Update i c t])) \<longrightarrow>
        (\<forall>r\<in>set (run ev cs []). updated_at r \<le> t)"
    using run_updated_at_before by blast
  from 1 2 3 4 5 show ?thesis by blast
qed

theorem timestamps_of_create_and_update_witness:
  "run has_at [create_A, create_B] [] = [orderA, orderB]
   \<and> sorted (readings ([create_A, create_B] @ [Update 1 pay 300]))
   \<and> create has_at ''b@example.com'' amount_20_00 one_item ''u1'' ''p2'' 2 200 202 [orderA]
       = (Inr orderB, [orderA, orderB])
   \<and> created_at orderB = 200 \<and> updated_at orderB = 202
   \<and> get [orderA] 1 = Inr orderA
   \<and> get (exec has_at (Update 1 pay 300) [orderA]) 1 = Inr orderA_paid
   \<and> created_at orderA_paid = created_at orderA
   \<and> update has_at 1 pay 300 [orderA] = (Inr orderA_paid, [orderA_paid])
   \<and> updated_at orderA_paid = 300
   \<and> created_at orderA \<le> updated_at orderA \<and> updated_at orderA \<le> 300
   \<and> created_at orderB \<le> updated_at orderB \<and> updated_at orderB \<le> 300"
  using timestamps_of_create_and_update
    [where ev = has_at and e = "''b@example.com''" and tot = amount_20_00 and its = one_item
      and uid = "''u1''" and pid = "''p2''" and u = 2 and ?t1.0 = 200 and ?t2.0 = 202
      and db = "[orderA]" and obj = orderB and db' = "[orderA, orderB]" and i = 1
      and row = orderA and cmd = "Update 1 pay 300" and c = pay and t = 300
      and upd = orderA_paid and db'' = "[orderA_paid]" and cs = "[create_A, create_B]"]
    run_scenario
  by (simp add: eval_defs)

text \<open>
  The claim as stated says that the two timestamps are equal right after creation. Order
  A is created with the clock reading 100 for \<^verbatim>\<open>created_at\<close> and the next reading, 101,
  for \<^verbatim>\<open>updated_at\<close>.
\<close>

theorem created_at_equals_updated_at_counterexample:
  "sorted (readings [create_A])
   \<and> create has_at ''a@example.com'' amount_10_00 one_item ''u1'' ''p1'' 1 100 101 []
       = (Inr orderA, [orderA])
   \<and> created_at orderA \<noteq> updated_at orderA"
  by (simp add: eval_defs)

subsection \<open>Failed writes\<close>

text \<open>
  C6: a \<open>create\<close> that fails leaves the table as it was, so no record of it is stored;
  an \<open>update\<close> that fails leaves the table, and so the prior state of the record, as it
  was. In particular, once the update of an order's status to paid has succeeded, the
  update of its status to bogus fails with \<^verbatim>\<open>ValidationError\<close>, the table is unchanged
  and the order's status is still paid.
\<close>

theorem failed_write_leaves_table:
  "(fst (create ev e tot its uid pid u t1 t2 db) = Inl err \<longrightarrow>
      snd (create ev e tot its uid pid u t1 t2 db) = db)
   \<and> (fst (update ev i c t db) = Inl err \<longrightarrow> snd (update ev i c t db) = db)
   \<and> (update ev i pay t db = (Inr a, db1) \<longrightarrow>
        update ev i make_bogus t' db1 = (Inl ValidationError, db1)
        \<and> get db1 i = Inr a \<and> status a = ''paid'')"
proof -
  have 1: "fst (create ev e tot its uid pid u t1 t2 db) = Inl err \<longrightarrow>
      snd (create ev e tot its uid pid u t1 t2 db) = db"
    by (cases "create ev e tot its uid pid u t1 t2 db") (auto dest: create_Inl)
  have 2: "fst (update ev i c t db) = Inl err \<longrightarrow> snd (update ev i c t db) = db"
    by (cases "update ev i c t db") (auto dest: update_Inl)
  from 1 2 update_paid_then_bogus [of ev i t db a db1 t'] show ?thesis by blast
qed

theorem failed_write_leaves_table_witness:
  "create has_at ''not-an-email'' amount_20_00 one_item ''u1'' ''p2'' 3 200 202 [orderA, orderB]
     = (Inl ValidationError, [orderA, orderB])
   \<and> update has_at 1 make_bogus 300 [orderA, orderB] = (Inl ValidationError, [orderA, orderB])
   \<and> update has_at 1 pay 300 [orderA, orderB] = (Inr orderA_paid, [orderA_paid, orderB])
   \<and> update has_at 1 make_bogus 400 [orderA_paid, orderB]
       = (Inl ValidationError, [orderA_paid, orderB])
   \<and> get [orderA_paid, orderB] 1 = Inr orderA_paid \<and> status orderA_paid = ''paid''
   \<and> OrderManager_get_by_status [orderA_paid, orderB] ''paid'' = Inr [orderA_paid]"
  using failed_write_leaves_table
    [where ev = has_at and e = "''not-an-email''" and tot = amount_20_00 and its = one_item
      and uid = "''u1''" and pid = "''p2''" and u = 3 and ?t1.0 = 200 and ?t2.0 = 202
      and db = "[orderA, orderB]" and err = ValidationError and i = 1 and c = make_bogus
      and t = 300 and a = orderA_paid and ?db1.0 = "[orderA_paid, orderB]" and t' = 400]
  by (simp add: eval_defs lookup_defs)

subsection \<open>Lookup by creation time\<close>

text \<open>
  C7: for every timestamp \<open>t\<close>, \<^verbatim>\<open>get_by_created_at(t)\<close> returns exactly the stored orders
  whose \<^verbatim>\<open>created_at\<close> equals \<open>t\<close>; an order whose \<^verbatim>\<open>created_at\<close> differs from \<open>t\<close>,
  however little, is not in the result.
\<close>

theorem get_by_created_at_exact:
  "OrderManager_get_by_created_at db t = Inr (filter (\<lambda>row. created_at row = t) db)
   \<and> (\<forall>r row. OrderManager_get_by_created_at db t = Inr r \<longrightarrow> created_at row \<noteq> t
         \<longrightarrow> row \<notin> set r)"
  by (auto simp: lookup_defs)

theorem get_by_created_at_exact_witness:
  "created_at orderA = 100 \<and> created_at (orderB\<lparr>created_at := 101\<rparr>) \<noteq> 100
   \<and> OrderManager_get_by_created_at [orderA, orderB\<lparr>created_at := 101\<rparr>] 100 = Inr [orderA]
   \<and> orderB\<lparr>created_at := 101\<rparr> \<notin> set [orderA]"
  using get_by_created_at_exact [where db = "[orderA, orderB\<lparr>created_at := 101\<rparr>]" and t = 100]
  by (simp add: orderA_def orderB_def)

subsection \<open>Lookups without a match\<close>

text \<open>
  C8: whatever the table, when no stored order has the value asked for, each of the four
  lookups returns the empty sequence, not an error.
\<close>

theorem lookups_without_match_return_empty:
  "((\<forall>row\<in>set db. user_id row \<noteq> u) \<longrightarrow> OrderManager_get_by_user_id db u = Inr [])
   \<and> ((\<forall>row\<in>set db. payment_id row \<noteq> p) \<longrightarrow> OrderManager_get_by_payment_id db p = Inr [])
   \<and> ((\<forall>row\<in>set db. status row \<noteq> s) \<longrightarrow> OrderManager_get_by_status db s = Inr [])
   \<and> ((\<forall>row\<in>set db. created_at row \<noteq> t) \<longrightarrow> OrderManager_get_by_created_at db t = Inr [])"
  by (simp add: lookup_defs filter_empty_conv)

theorem lookups_without_match_return_empty_witness:
  "user_id orderA \<noteq> ''u9'' \<and> user_id orderB \<noteq> ''u9''
   \<and> payment_id orderA \<noteq> ''p9'' \<and> payment_id orderB \<noteq> ''p9''
   \<and> status orderA \<noteq> ''shipped'' \<and> status orderB \<noteq> ''shipped''
   \<and> created_at orderA \<noteq> 150 \<and> created_at orderB \<noteq> 150
   \<and> OrderManager_get_by_user_id [orderA, orderB] ''u9'' = Inr []
   \<and> OrderManager_get_by_payment_id [orderA, orderB] ''p9'' = Inr []
   \<and> OrderManager_get_by_status [orderA, orderB] ''shipped'' = Inr []
   \<and> OrderManager_get_by_created_at [orderA, orderB] 150 = Inr []"
  using lookups_without_match_return_empty
    [where db = "[orderA, orderB]" and u = "''u9''" and p = "''p9''" and s = "''shipped''"
      and t = 150]
  by (simp add: orderA_def orderB_def)

subsection \<open>Keys\<close>

text \<open>
  C9: the \<^verbatim>\<open>id\<close> of a created order is the value drawn for it, not one of the caller's
  arguments, and it differs from the \<^verbatim>\<open>id\<close> of every order in the table; the orders of
  a reachable table have pairwise different \<^verbatim>\<open>id\<close>s; no \<open>create\<close> or \<open>update\<close> removes
  an \<^verbatim>\<open>id\<close> from the table and \<open>update\<close> leaves the \<^verbatim>\<open>id\<close> of every row as it is. With
  valid arguments and a value not yet in the table, \<open>create\<close> succeeds.
\<close>

theorem created_id_fresh_and_kept:
  "(create ev e tot its uid pid u t1 t2 db = (Inr obj, db') \<longrightarrow>
      id' obj = u \<and> u \<notin> set (map id' db) \<and> db' = db @ [obj])
   \<and> distinct (map id' (run ev cs []))
   \<and> set (map id' db) \<subseteq> set (map id' (exec ev cmd db))
   \<and> map id' (snd (update ev i c t db)) = map id' db
   \<and> (clean_fields ev \<lparr>id' = u, email = e, status = status_default, total' = tot,
          items = its, user_id = uid, payment_id = pid, created_at = t1, updated_at = t2\<rparr>
        \<and> u \<notin> set (map id' db) \<longrightarrow>
        (\<exists>new. create ev e tot its uid pid u t1 t2 db = (Inr new, db @ [new])))"
proof -
  have 1: "create ev e tot its uid pid u t1 t2 db = (Inr obj, db') \<longrightarrow>
      id' obj = u \<and> u \<notin> set (map id' db) \<and> db' = db @ [obj]"
    by (auto dest!: create_Inr)
  have 2: "distinct (map id' (run ev cs []))"
    by (rule run_ids) simp
  from 1 2 exec_keeps_ids [of db ev cmd] update_ids [of ev i c t db]
    create_succeeds [of ev u e tot its uid pid t1 t2 db]
  show ?thesis by blast
qed

theorem created_id_fresh_and_kept_witness:
  "create has_at ''b@example.com'' amount_20_00 one_item ''u1'' ''p2'' 2 200 202 [orderA]
     = (Inr orderB, [orderA, orderB])
   \<and> id' orderB = 2 \<and> 2 \<notin> set (map id' [orderA])
   \<and> run has_at [create_A, create_B] [] = [orderA, orderB]
   \<and> distinct (map id' [orderA, orderB])
   \<and> map id' (snd (update has_at 1 pay 300 [orderA])) = map id' [orderA]
   \<and> fst (create has_at ''b@example.com'' amount_20_00 one_item ''u1'' ''p2'' 1 200 202 [orderA])
       = Inl ValidationError"
  using created_id_fresh_and_kept
    [where ev = has_at and e = "''b@example.com''" and tot = amount_20_00 and its = one_item
      and uid = "''u1''" and pid = "''p2''" and u = 2 and ?t1.0 = 200 and ?t2.0 = 202
      and db = "[orderA]" and obj = orderB and db' = "[orderA, orderB]"
      and cs = "[create_A, create_B]" and cmd = "Update 1 pay 300" and i = 1 and c = pay
      and t = 300]
    run_scenario
  by (simp add: eval_defs)

subsection \<open>The manager\<close>

text \<open>
  C10: for every table and every argument, each lookup of the manager returns what the
  queryset method of the same name returns on the rows of the table: the manager adds no
  filter, order or check of its own.
\<close>

theorem manager_delegates_to_queryset:
  "OrderManager_get_by_user_id db u = OrderQuerySet_get_by_user_id db u
   \<and> OrderManager_get_by_payment_id db p = OrderQuerySet_get_by_payment_id db p
   \<and> OrderManager_get_by_status db s = OrderQuerySet_get_by_status db s
   \<and> OrderManager_get_by_created_at db t = OrderQuerySet_get_by_created_at db t"
  by (simp add: OrderManager_get_by_user_id_def OrderManager_get_by_payment_id_def
      OrderManager_get_by_status_def OrderManager_get_by_created_at_def get_queryset_def)

theorem manager_delegates_to_queryset_witness:
  "OrderManager_get_by_user_id [orderA, orderB] ''u1'' = Inr [orderA, orderB]
   \<and> OrderQuerySet_get_by_user_id [orderA, orderB] ''u1'' = Inr [orderA, orderB]
   \<and> OrderManager_get_by_payment_id [orderA, orderB] ''p2'' = Inr [orderB]
   \<and> OrderManager_get_by_status [orderA, orderB] ''pending'' = Inr [orderA, orderB]
   \<and> OrderManager_get_by_created_at [orderA, orderB] 200 = Inr [orderB]"
  using manager_delegates_to_queryset
    [where db = "[orderA, orderB]" and u = "''u1''" and p = "''p2''" and s = "''pending''"
      and t = 200]
  by (simp add: orderA_def orderB_def OrderQuerySet_get_by_user_id_def
      OrderQuerySet_get_by_payment_id_def OrderQuerySet_get_by_status_def
      OrderQuerySet_get_by_created_at_def filter_exact_def)

end
